theory Spec2Isabelle
  imports Main "HOL-Library.Sublist" "HOL-Library.Char_ord" "HOL-Library.List_Lexorder"
begin

section \<open>The manifest writer of qdoc (manifestwriter.cpp)\<close>

text \<open>
  A shallow embedding of \<^verbatim>\<open>src/qdoc/manifestwriter.cpp\<close>. A \<^verbatim>\<open>QString\<close> is a
  \<^typ>\<open>string\<close>; its characters are read as the code points U+0000..U+00FF. A
  \<^verbatim>\<open>QStringList\<close> is a \<^typ>\<open>string list\<close>, a \<^verbatim>\<open>QSet<QString>\<close> that is only
  united, tested and rebuilt is a \<^typ>\<open>string set\<close>, and a \<^verbatim>\<open>QSet<QString>\<close> that
  is iterated with an effect depending on the order is the list of its elements in
  iteration order. A \<^verbatim>\<open>QMap<int, QString>\<close> is the list of its entries in iteration
  order, that is by ascending key. The \<^verbatim>\<open>QXmlStreamWriter\<close> is the list of the
  calls made on it so far.
\<close>

subsection \<open>QString and QChar operations\<close>

definition toLower_c :: "char \<Rightarrow> char" where
  \<comment> \<open>\<^verbatim>\<open>QChar::toLower\<close> on U+0000..U+00FF: A-Z and U+00C0..U+00DE without U+00D7.\<close>
  "toLower_c c =
     (let n = (of_char c :: nat)
      in if (65 \<le> n \<and> n \<le> 90) \<or> (192 \<le> n \<and> n \<le> 222 \<and> n \<noteq> 215)
         then char_of (n + 32) else c)"

definition toLower :: "string \<Rightarrow> string" where
  "toLower s = map toLower_c s"

definition isDigit :: "char \<Rightarrow> bool" where
  \<comment> \<open>\<^verbatim>\<open>QChar::isDigit\<close>: the decimal digits; below U+0100 these are 0-9.\<close>
  "isDigit c = (let n = (of_char c :: nat) in 48 \<le> n \<and> n \<le> 57)"

definition startsWith :: "string \<Rightarrow> string \<Rightarrow> bool" where
  "startsWith s p = prefix p s"

definition endsWith :: "string \<Rightarrow> string \<Rightarrow> bool" where
  "endsWith s p = suffix p s"

definition at :: "string \<Rightarrow> nat \<Rightarrow> char" where
  \<comment> \<open>\<^verbatim>\<open>QString::at\<close>. Past the end the call is outside its contract: the assertion
      is compiled out of release builds and the read yields the terminating NUL.\<close>
  "at s i = (if i < length s then s ! i else CHR 0x00)"

definition chop :: "nat \<Rightarrow> string \<Rightarrow> string" where
  \<comment> \<open>\<^verbatim>\<open>QString::chop(n)\<close>: drop n characters from the end; empty when n reaches the size.\<close>
  "chop n s = take (length s - n) s"

definition remove :: "nat \<Rightarrow> nat \<Rightarrow> string \<Rightarrow> string" where
  \<comment> \<open>\<^verbatim>\<open>QString::remove(position, n)\<close>.\<close>
  "remove pos n s = take pos s @ drop (pos + n) s"

definition indexOf :: "string \<Rightarrow> char \<Rightarrow> int" where
  \<comment> \<open>\<^verbatim>\<open>QString::indexOf(QChar)\<close>: index of the first occurrence, -1 when there is none.\<close>
  "indexOf s c = (if c \<in> set s then int (length (takeWhile (\<lambda>x. x \<noteq> c) s)) else - 1)"

definition lastIndexOf :: "string \<Rightarrow> char \<Rightarrow> int" where
  \<comment> \<open>\<^verbatim>\<open>QString::lastIndexOf(QChar)\<close>: index of the last occurrence, -1 when there is none.\<close>
  "lastIndexOf s c =
     (if c \<in> set s then int (length s) - 1 - int (length (takeWhile (\<lambda>x. x \<noteq> c) (rev s)))
      else - 1)"

definition left :: "string \<Rightarrow> int \<Rightarrow> string" where
  \<comment> \<open>\<^verbatim>\<open>QString::left(n)\<close>: the whole string when n is negative or beyond the size.\<close>
  "left s n = (if n < 0 \<or> int (length s) \<le> n then s else take (nat n) s)"

definition mid :: "string \<Rightarrow> int \<Rightarrow> string" where
  \<comment> \<open>\<^verbatim>\<open>QString::mid(position)\<close>: empty when the position is beyond the size.\<close>
  "mid s pos = (if pos < 0 then s else drop (nat pos) s)"

fun split :: "char \<Rightarrow> string \<Rightarrow> string list" where
  \<comment> \<open>\<^verbatim>\<open>QString::split(sep)\<close> with the default \<^verbatim>\<open>Qt::KeepEmptyParts\<close>.\<close>
  "split sep [] = [[]]"
| "split sep (c # cs) =
     (if c = sep then [] # split sep cs
      else (case split sep cs of [] \<Rightarrow> [[c]] | p # ps \<Rightarrow> (c # p) # ps))"

fun join :: "string \<Rightarrow> string list \<Rightarrow> string" where
  \<comment> \<open>\<^verbatim>\<open>QStringList::join(sep)\<close>.\<close>
  "join sep [] = []"
| "join sep [s] = s"
| "join sep (s # t # ss) = s @ sep @ join sep (t # ss)"

subsection \<open>QFileInfo\<close>

definition fileName :: "string \<Rightarrow> string" where
  \<comment> \<open>\<^verbatim>\<open>QFileInfo::fileName\<close>: the path after its last slash.\<close>
  "fileName file = mid file (lastIndexOf file CHR ''/'' + 1)"

definition baseName :: "string \<Rightarrow> string" where
  \<comment> \<open>\<^verbatim>\<open>QFileInfo::baseName\<close>: the file name up to its first dot.\<close>
  "baseName file = takeWhile (\<lambda>c. c \<noteq> CHR ''.'') (fileName file)"

definition compare_ci :: "string \<Rightarrow> string \<Rightarrow> bool" where
  \<comment> \<open>\<^verbatim>\<open>a.compare(b, Qt::CaseInsensitive) == 0\<close>.\<close>
  "compare_ci a b = (toLower a = toLower b)"

subsection \<open>QXmlStreamWriter\<close>

datatype xml_event =
    StartDocument
  | StartElement string
  | Attribute string string
  | Characters string
  | CDATA string
  | EndElement
  | EndDocument

type_synonym QXmlStreamWriter = "xml_event list"

subsection \<open>The files to open\<close>

type_synonym QMap_int_QString = "(int \<times> string) list"

fun qmap_insert :: "int \<Rightarrow> string \<Rightarrow> QMap_int_QString \<Rightarrow> QMap_int_QString" where
  \<comment> \<open>\<^verbatim>\<open>QMap::insert\<close>: a key already present keeps its place and takes the new value.\<close>
  "qmap_insert k v [] = [(k, v)]"
| "qmap_insert k v ((k', v') # m) =
     (if k < k' then (k, v) # (k', v') # m
      else if k = k' then (k, v) # m
      else (k', v') # qmap_insert k v m)"

fun getFilesToOpen_loop :: "string list \<Rightarrow> string \<Rightarrow> QMap_int_QString \<Rightarrow> QMap_int_QString" where
  "getFilesToOpen_loop [] exampleName filesToOpen = filesToOpen"
| "getFilesToOpen_loop (file # files) exampleName filesToOpen =
     (let fileName' = toLower (fileName file)
      in getFilesToOpen_loop files exampleName
          (if compare_ci (baseName file) exampleName then
             (if endsWith fileName' ''.qml'' then qmap_insert 0 file filesToOpen
              else if endsWith fileName' ''.cpp'' then qmap_insert 1 file filesToOpen
              else if endsWith fileName' ''.h'' then qmap_insert 2 file filesToOpen
              else filesToOpen)
           else if endsWith fileName' ''main.qml'' then qmap_insert 3 file filesToOpen
           else if endsWith fileName' ''main.cpp'' then qmap_insert 4 file filesToOpen
           else filesToOpen))"

definition getFilesToOpen :: "string list \<Rightarrow> string \<Rightarrow> QMap_int_QString" where
  "getFilesToOpen files exampleName = getFilesToOpen_loop files exampleName []"

fun writeFilesToOpen_loop ::
  "nat \<Rightarrow> QXmlStreamWriter \<Rightarrow> string \<Rightarrow> QMap_int_QString \<Rightarrow> QXmlStreamWriter" where
  \<comment> \<open>The iterator \<^verbatim>\<open>it\<close> is its distance from \<^verbatim>\<open>constBegin()\<close>; the loop starts at
      \<^verbatim>\<open>constEnd()\<close>, steps back before it reads, and stops at \<^verbatim>\<open>constBegin()\<close>.\<close>
  "writeFilesToOpen_loop 0 writer installPath filesToOpen = writer"
| "writeFilesToOpen_loop (Suc it) writer installPath filesToOpen =
     writeFilesToOpen_loop it
       (writer @ [StartElement ''fileToOpen'']
          @ (if it = 0 then [Attribute ''mainFile'' ''true''] else [])
          @ [Characters (installPath @ snd (filesToOpen ! it)), EndElement])
       installPath filesToOpen"

definition writeFilesToOpen ::
  "QXmlStreamWriter \<Rightarrow> string \<Rightarrow> QMap_int_QString \<Rightarrow> QXmlStreamWriter" where
  "writeFilesToOpen writer installPath filesToOpen =
     writeFilesToOpen_loop (length filesToOpen) writer installPath filesToOpen"

subsection \<open>Documentation nodes and the writer's members\<close>

record ExampleNode =
  name :: string
  title :: string
  projectFile :: string
  imageFileName :: string
  files :: "string list"
  briefText :: string
    \<comment> \<open>\<^verbatim>\<open>doc().briefText()\<close>, as its \<^verbatim>\<open>toString()\<close>; empty when there is no brief.\<close>
  metaTagMap :: "(string \<times> string) list option"
    \<comment> \<open>\<^verbatim>\<open>doc().metaTagMap()\<close>: a pointer, null when the comment has no meta tags;
        the multimap is the list of its entries in iteration order.\<close>

record ManifestMetaFilter =
  names :: "string list"
  attributes :: "string list"
  tags :: "string set"

record ManifestWriter =
  m_project :: string
  m_outputDirectory :: string
  m_manifestDir :: string
  m_examplesPath :: string
  m_manifestMetaContent :: "ManifestMetaFilter list"
  m_tags :: "string set"
  exampleNodeMap :: "ExampleNode list"
    \<comment> \<open>\<^verbatim>\<open>m_qdb->exampleNodeMap()\<close>, as the list of its values in iteration order.\<close>

definition multimap_values :: "(string \<times> string) list \<Rightarrow> string \<Rightarrow> string list" where
  \<comment> \<open>\<^verbatim>\<open>QMultiMap::values(key)\<close>.\<close>
  "multimap_values m key = map snd (filter (\<lambda>e. fst e = key) m)"

definition multimap_value :: "(string \<times> string) list \<Rightarrow> string \<Rightarrow> string" where
  \<comment> \<open>\<^verbatim>\<open>QMultiMap::value(key)\<close>: the first value of the key, or an empty string.\<close>
  "multimap_value m key = (case multimap_values m key of [] \<Rightarrow> [] | v # _ \<Rightarrow> v)"

subsection \<open>Warnings and the description\<close>

definition warnAboutUnusedAttributes :: "string list \<Rightarrow> string \<Rightarrow> string list" where
  \<comment> \<open>The warnings issued, in order.\<close>
  "warnAboutUnusedAttributes usedAttributes nm =
     map (\<lambda>attribute. nm @ '': missing attribute '' @ attribute)
       (filter (\<lambda>attribute. attribute \<notin> set usedAttributes) [''imageUrl'', ''projectPath''])"

definition writeDescription :: "QXmlStreamWriter \<Rightarrow> ExampleNode \<Rightarrow> QXmlStreamWriter" where
  "writeDescription writer example =
     writer @ [StartElement ''description'']
       @ (if briefText example \<noteq> [] then [CDATA (briefText example)]
          else [CDATA ''No description available''])
       @ [EndElement]"

subsection \<open>Attributes and tags from the manifest meta filters\<close>

definition nameMatches :: "string \<Rightarrow> string \<Rightarrow> bool" where
  \<comment> \<open>The value of \<^verbatim>\<open>match\<close> after the switch on \<^verbatim>\<open>wildcard\<close>.\<close>
  "nameMatches fullName nm =
     (let wildcard = indexOf nm CHR ''*''
      in if wildcard = - 1 then fullName = nm
         else if wildcard = 0 then True
         else startsWith fullName (left nm wildcard))"

definition processAttribute ::
  "string \<Rightarrow> string list \<times> QXmlStreamWriter \<Rightarrow> string list \<times> QXmlStreamWriter" where
  \<comment> \<open>The body of the loop over \<^verbatim>\<open>attributes\<close>. \<^verbatim>\<open>takeFirst\<close> needs a non-empty list;
      \<^verbatim>\<open>split\<close> never returns an empty one, so the first case is never taken.\<close>
  "processAttribute attribute st =
     (let attrList = split CHR '':'' attribute;
          attrList = (if length attrList = 1 then attrList @ [''true''] else attrList)
      in case attrList of
           [] \<Rightarrow> st
         | attrName # attrList \<Rightarrow>
             (if attrName \<notin> set (fst st)
              then (fst st @ [attrName], snd st @ [Attribute attrName (join '':'' attrList)])
              else st))"

definition processName ::
  "ManifestMetaFilter \<Rightarrow> string \<Rightarrow> string
     \<Rightarrow> string set \<times> string list \<times> QXmlStreamWriter
     \<Rightarrow> string set \<times> string list \<times> QXmlStreamWriter" where
  \<comment> \<open>The body of the loop over \<^verbatim>\<open>names\<close>.\<close>
  "processName index fullName nm st =
     (if nameMatches fullName nm
      then (fst st \<union> tags index, fold processAttribute (attributes index) (snd st))
      else st)"

definition processManifestMetaContent ::
  "ManifestMetaFilter list \<Rightarrow> string \<Rightarrow> string list option \<Rightarrow> QXmlStreamWriter option
     \<Rightarrow> string set \<Rightarrow> string set \<times> string list option \<times> QXmlStreamWriter option" where
  \<comment> \<open>The two pointers are options, \<^const>\<open>None\<close> for a null pointer. The result holds
      \<^verbatim>\<open>m_tags\<close> and the two pointees after the call.\<close>
  "processManifestMetaContent mmc fullName usedAttributes writer tgs =
     (case (usedAttributes, writer) of
        (Some ua, Some w) \<Rightarrow>
          (let st = fold (\<lambda>index. fold (processName index fullName) (names index)) mmc
                      (tgs, ua, w)
           in (fst st, Some (fst (snd st)), Some (snd (snd st))))
      | _ \<Rightarrow> (tgs, usedAttributes, writer))"

subsection \<open>Tags\<close>

definition writeTagsElement ::
  "QXmlStreamWriter option \<Rightarrow> string set \<Rightarrow> QXmlStreamWriter option \<times> string set" where
  \<comment> \<open>Returns the writer and \<^verbatim>\<open>m_tags\<close> after the call.\<close>
  "writeTagsElement writer tgs =
     (case writer of
        None \<Rightarrow> (None, tgs)
      | Some w \<Rightarrow>
          if tgs = {} then (Some w, tgs)
          else (Some (w @ [StartElement ''tags'',
                           Characters (join '','' (sorted_list_of_set tgs)),
                           EndElement]),
                {}))"

definition cleanTag :: "string \<Rightarrow> string" where
  \<comment> \<open>What the loop of \<^verbatim>\<open>cleanUpTags\<close> strips from a tag before it tests it.\<close>
  "cleanTag tag =
     (let tag = (if at tag 0 = CHR ''('' then chop 1 (remove 0 1 tag) else tag);
          tag = (if endsWith tag '':'' then chop 1 tag else tag)
      in tag)"

definition rejectedTag :: "string \<Rightarrow> bool" where
  \<comment> \<open>The condition under which the loop of \<^verbatim>\<open>cleanUpTags\<close> continues without adding.\<close>
  "rejectedTag tag =
     (length tag < 2 \<or> isDigit (at tag 0) \<or> at tag 0 = CHR ''-''
      \<or> tag = ''qt'' \<or> tag = ''the''
      \<or> tag = ''and'' \<or> startsWith tag ''example''
      \<or> startsWith tag ''chapter'')"

definition cleanUpTags :: "string set \<Rightarrow> string set" where
  \<comment> \<open>\<^verbatim>\<open>m_tags\<close> after the call: each tag is stripped, tested and added on its own.\<close>
  "cleanUpTags tgs = Set.filter (\<lambda>tag. \<not> rejectedTag tag) (cleanTag ` tgs)"

subsection \<open>QRegularExpression\<close>

text \<open>
  The fragment of Perl-compatible regular expressions that the writer uses: literals,
  greedy repetition of a character class, sequence, alternation and the greedy option.
  \<open>rx_ends r s\<close> lists the lengths of the matches of \<open>r\<close> at the start of \<open>s\<close> in the
  order in which backtracking tries them; the match reported is the first one.
\<close>

datatype regex =
    Lit string
  | Star "char \<Rightarrow> bool"
  | Plus "char \<Rightarrow> bool"
  | Seq regex regex
  | Alt regex regex
  | Opt regex

fun rx_ends :: "regex \<Rightarrow> string \<Rightarrow> nat list" where
  "rx_ends (Lit l) s = (if prefix l s then [length l] else [])"
| "rx_ends (Star c) s = rev [0..<Suc (length (takeWhile c s))]"
| "rx_ends (Plus c) s = rev [1..<Suc (length (takeWhile c s))]"
| "rx_ends (Seq a b) s = concat (map (\<lambda>n. map ((+) n) (rx_ends b (drop n s))) (rx_ends a s))"
| "rx_ends (Alt a b) s = rx_ends a s @ rx_ends b s"
| "rx_ends (Opt a) s = rx_ends a s @ [0]"

fun rx_find :: "regex \<Rightarrow> string \<Rightarrow> (nat \<times> nat) option" where
  \<comment> \<open>\<^verbatim>\<open>QRegularExpression::match\<close>: the leftmost match, as the number of characters
      before it and its length; \<^const>\<open>None\<close> when \<^verbatim>\<open>hasMatch()\<close> is false.\<close>
  "rx_find r [] = (case rx_ends r [] of [] \<Rightarrow> None | n # _ \<Rightarrow> Some (0, n))"
| "rx_find r (c # cs) =
     (case rx_ends r (c # cs) of
        [] \<Rightarrow> map_option (\<lambda>(i, n). (Suc i, n)) (rx_find r cs)
      | n # _ \<Rightarrow> Some (0, n))"

definition uppercase :: "char \<Rightarrow> bool" where
  \<comment> \<open>The class \<^verbatim>\<open>[A-Z]\<close>.\<close>
  "uppercase c = (CHR ''A'' \<le> c \<and> c \<le> CHR ''Z'')"

definition lowercase_or_digit :: "char \<Rightarrow> bool" where
  \<comment> \<open>The class \<^verbatim>\<open>[a-z0-9]\<close>.\<close>
  "lowercase_or_digit c =
     ((CHR ''a'' \<le> c \<and> c \<le> CHR ''z'') \<or> (CHR ''0'' \<le> c \<and> c \<le> CHR ''9''))"

definition re :: regex where
  \<comment> \<open>\<^verbatim>\<open>([A-Z]+[a-z0-9]*(3D|GL)?)\<close>; its first group is the whole match.\<close>
  "re = Seq (Plus uppercase)
          (Seq (Star lowercase_or_digit) (Opt (Alt (Lit ''3D'') (Lit ''GL''))))"

function addWords_loop :: "string \<Rightarrow> nat \<Rightarrow> string set \<Rightarrow> string set" where
  \<comment> \<open>The while loop of \<^verbatim>\<open>addWordsFromModuleNamesAsTags\<close>. A match from offset
      \<^verbatim>\<open>pos\<close> is a match in the rest of the string: the pattern looks neither back
      nor at the start of the subject.\<close>
  "addWords_loop project pos tgs =
     (case rx_find re (drop pos project) of
        None \<Rightarrow> tgs
      | Some (i, n) \<Rightarrow>
          addWords_loop project (pos + i + n)
            (insert (toLower (take n (drop (pos + i) project))) tgs))"
  by pat_completeness auto
termination
proof (relation "measure (\<lambda>(project, pos, tgs). length project - pos)")
  show "wf (measure (\<lambda>(project, pos, tgs). length project - pos))" by simp
next
  fix project :: string and pos :: nat and tgs :: "string set" and x2 i n
  assume "rx_find re (drop pos project) = Some x2" "(i, n) = x2"
  then have f: "rx_find re (drop pos project) = Some (i, n)" by simp
  have le: "m \<le> length s" if "m \<in> set (rx_ends r s)" for m r s
    using that
  proof (induction r arbitrary: s m)
    case (Lit l)
    then show ?case by (auto simp: prefix_def split: if_splits)
  next
    case (Star c)
    then show ?case using length_takeWhile_le[of c s] by auto
  next
    case (Plus c)
    then show ?case using length_takeWhile_le[of c s] by auto
  next
    case (Seq a b)
    then show ?case by fastforce
  next
    case (Alt a b)
    then show ?case by auto
  next
    case (Opt a)
    then show ?case by auto
  qed
  have found: "j + m \<le> length s \<and> m \<in> set (rx_ends r (drop j s))"
    if "rx_find r s = Some (j, m)" for r s j m
    using that
  proof (induction s arbitrary: j m)
    case Nil
    then obtain ms where e: "rx_ends r [] = m # ms" and j: "j = 0"
      by (auto split: list.splits)
    then have "m \<in> set (rx_ends r [])" by simp
    with le[of m r "[]"] j show ?case by simp
  next
    case (Cons c cs)
    show ?case
    proof (cases "rx_ends r (c # cs)")
      case Nil
      with Cons.prems obtain k where "rx_find r cs = Some (k, m)" "j = Suc k"
        by auto
      with Cons.IH show ?thesis by auto
    next
      case (Cons m' ms)
      with Cons.prems have "j = 0" "m = m'" by auto
      with Cons show ?thesis using le[of m' r "c # cs"] by auto
    qed
  qed
  have pos: "0 < m" if "m \<in> set (rx_ends re s)" for m s
    using that by (auto simp: re_def)
  from found[OF f] have "i + n \<le> length project - pos" "0 < n"
    by (auto dest: pos)
  then show "((project, pos + i + n, insert (toLower (take n (drop (pos + i) project))) tgs),
              (project, pos, tgs)) \<in> measure (\<lambda>(project, pos, tgs). length project - pos)"
    by simp
qed

definition addWordsFromModuleNamesAsTags :: "string \<Rightarrow> string set \<Rightarrow> string set" where
  \<comment> \<open>\<^verbatim>\<open>m_tags\<close> after the call, from \<^verbatim>\<open>m_project\<close> and \<^verbatim>\<open>m_tags\<close> before it.\<close>
  "addWordsFromModuleNamesAsTags project tgs = addWords_loop project 0 tgs"

definition addTitleWordsToTags :: "ExampleNode option \<Rightarrow> string set \<Rightarrow> string set" where
  "addTitleWordsToTags example tgs =
     (case example of
        None \<Rightarrow> tgs
      | Some ex \<Rightarrow> tgs \<union> set (split CHR '' '' (toLower (title ex))))"

definition includeTagsAddedWithMetaCommand ::
  "ExampleNode option \<Rightarrow> string set \<Rightarrow> string set" where
  "includeTagsAddedWithMetaCommand example tgs =
     (case example of
        None \<Rightarrow> tgs
      | Some ex \<Rightarrow>
          (case metaTagMap ex of
             None \<Rightarrow> tgs
           | Some m \<Rightarrow>
               fold (\<lambda>tag t. t \<union> set (split CHR '','' (toLower tag)))
                 (multimap_values m ''tag'') tgs))"

definition retrieveExampleInstallationPath :: "string \<Rightarrow> ExampleNode \<Rightarrow> string" where
  "retrieveExampleInstallationPath examplesPath example =
     (let installPath = (case metaTagMap example of
                           None \<Rightarrow> []
                         | Some m \<Rightarrow> multimap_value m ''installpath'');
          installPath = (if installPath = [] then examplesPath else installPath);
          installPath = (if installPath \<noteq> [] \<and> \<not> endsWith installPath ''/''
                         then installPath @ ''/'' else installPath)
      in installPath)"

subsection \<open>Generating a manifest file\<close>

definition writeAlwaysAttributes ::
  "ManifestWriter \<Rightarrow> (ExampleNode \<Rightarrow> string) \<Rightarrow> string \<Rightarrow> ExampleNode \<Rightarrow> string
     \<Rightarrow> QXmlStreamWriter \<Rightarrow> string list \<times> QXmlStreamWriter" where
  \<comment> \<open>From \<^verbatim>\<open>usedAttributes.clear()\<close> to the \<^verbatim>\<open>imageUrl\<close> attribute. \<open>fileBase\<close> is
      \<^verbatim>\<open>Generator::fileBase\<close>, which is outside this file.\<close>
  "writeAlwaysAttributes mw fileBase element example installPath writer =
     (let usedAttributes = [];
          usedAttributes = usedAttributes @ [''name'', ''docUrl''];
          writer = writer @ [StartElement element];
          writer = writer @ [Attribute ''name'' (title example)];
          docUrl = m_manifestDir mw @ fileBase example @ ''.html'';
          writer = writer @ [Attribute ''docUrl'' docUrl];
          (usedAttributes, writer) =
            (if projectFile example \<noteq> []
             then (usedAttributes @ [''projectPath''],
                   writer @ [Attribute ''projectPath'' (installPath @ projectFile example)])
             else (usedAttributes, writer));
          (usedAttributes, writer) =
            (if imageFileName example \<noteq> []
             then (usedAttributes @ [''imageUrl''],
                   writer @ [Attribute ''imageUrl'' (m_manifestDir mw @ imageFileName example)])
             else (usedAttributes, writer))
      in (usedAttributes, writer))"

definition exampleBody ::
  "ManifestWriter \<Rightarrow> (ExampleNode \<Rightarrow> string) \<Rightarrow> string \<Rightarrow> ExampleNode
     \<Rightarrow> string set \<times> QXmlStreamWriter \<times> string list
     \<Rightarrow> string set \<times> QXmlStreamWriter \<times> string list" where
  \<comment> \<open>One iteration of the loop over the examples that reaches no \<^verbatim>\<open>continue\<close>. The
      state is \<^verbatim>\<open>m_tags\<close>, the writer and the warnings issued. \<^verbatim>\<open>usedAttributes\<close> is
      cleared at the head of every iteration and not read after the loop, so it is
      local here.\<close>
  "exampleBody mw fileBase element example st =
     (let tgs = fst st; writer = fst (snd st); warnings = snd (snd st);
          installPath = retrieveExampleInstallationPath (m_examplesPath mw) example;
          (usedAttributes, writer) =
            writeAlwaysAttributes mw fileBase element example installPath writer;
          fullName = m_project mw @ ''/'' @ title example;
          (tgs, usedAttributes, writer) =
            (case processManifestMetaContent (m_manifestMetaContent mw) fullName
                    (Some usedAttributes) (Some writer) tgs of
               (t, Some ua, Some w) \<Rightarrow> (t, ua, w)
             | (t, _, _) \<Rightarrow> (t, usedAttributes, writer));
          warnings = warnings @ warnAboutUnusedAttributes usedAttributes (name example);
          writer = writeDescription writer example;
          tgs = addWordsFromModuleNamesAsTags (m_project mw) tgs;
          tgs = includeTagsAddedWithMetaCommand (Some example) tgs;
          tgs = addTitleWordsToTags (Some example) tgs;
          tgs = cleanUpTags tgs;
          (writer, tgs) =
            (case writeTagsElement (Some writer) tgs of
               (Some w, t) \<Rightarrow> (w, t)
             | (None, t) \<Rightarrow> (writer, t));
          exampleName = mid (name example) (lastIndexOf (name example) CHR ''/'' + 1);
          filesToOpen = getFilesToOpen (files example) exampleName;
          writer = writeFilesToOpen writer installPath filesToOpen;
          writer = writer @ [EndElement]
      in (tgs, writer, warnings))"

fun generate_loop ::
  "ManifestWriter \<Rightarrow> (ExampleNode \<Rightarrow> string) \<Rightarrow> bool \<Rightarrow> string \<Rightarrow> ExampleNode list
     \<Rightarrow> string set \<times> QXmlStreamWriter \<times> string list
     \<Rightarrow> string set \<times> QXmlStreamWriter \<times> string list" where
  \<comment> \<open>The loop over \<^verbatim>\<open>exampleNodeMap.values()\<close>, with its two \<^verbatim>\<open>continue\<close>s.\<close>
  "generate_loop mw fileBase demos element [] st = st"
| "generate_loop mw fileBase demos element (example # examples) st =
     (if demos then
        (if \<not> startsWith (name example) ''demos''
         then generate_loop mw fileBase demos element examples st
         else generate_loop mw fileBase demos element examples
                (exampleBody mw fileBase element example st))
      else if startsWith (name example) ''demos''
      then generate_loop mw fileBase demos element examples st
      else generate_loop mw fileBase demos element examples
             (exampleBody mw fileBase element example st))"

definition generateManifestFile ::
  "(ExampleNode \<Rightarrow> string) \<Rightarrow> (string \<Rightarrow> bool) \<Rightarrow> ManifestWriter \<Rightarrow> string \<Rightarrow> string
     \<Rightarrow> ManifestWriter \<times> string list \<times> (string \<times> QXmlStreamWriter) option" where
  \<comment> \<open>\<open>canOpen\<close> tells whether \<^verbatim>\<open>outputFile.open\<close> succeeds on a path. The result is the
      writer object after the call, the warnings issued, and the file written, as its
      path and the calls made on the XML writer, or \<^const>\<open>None\<close> when no file is written.\<close>
  "generateManifestFile fileBase canOpen mw manifest element =
     (if exampleNodeMap mw = [] then (mw, [], None)
      else
        let demos = (manifest = ''demos'');
            proceed = list_ex (\<lambda>example. demos = startsWith (name example) ''demos'')
                        (exampleNodeMap mw)
        in if \<not> proceed then (mw, [], None)
           else
             let outputFileName = manifest @ ''-manifest.xml'';
                 outputFile = m_outputDirectory mw @ ''/'' @ outputFileName
             in if \<not> canOpen outputFile then (mw, [], None)
                else
                  let writer = [StartDocument, StartElement ''instructionals'',
                                Attribute ''module'' (m_project mw), StartElement manifest];
                      st = generate_loop mw fileBase demos element (exampleNodeMap mw)
                             (m_tags mw, writer, []);
                      writer = fst (snd st) @ [EndElement, EndElement, EndDocument]
                  in (mw\<lparr>m_tags := fst st\<rparr>, snd (snd st), Some (outputFile, writer)))"

definition generateManifestFiles ::
  "(ExampleNode \<Rightarrow> string) \<Rightarrow> (string \<Rightarrow> bool) \<Rightarrow> ManifestWriter
     \<Rightarrow> ManifestWriter \<times> string list
        \<times> (string \<times> QXmlStreamWriter) option \<times> (string \<times> QXmlStreamWriter) option" where
  "generateManifestFiles fileBase canOpen mw =
     (let r1 = generateManifestFile fileBase canOpen mw ''examples'' ''example'';
          r2 = generateManifestFile fileBase canOpen (fst r1) ''demos'' ''demo''
      in ((fst r2)\<lparr>exampleNodeMap := [], m_manifestMetaContent := []\<rparr>,
          fst (snd r1) @ fst (snd r2), snd (snd r1), snd (snd r2)))"

subsection \<open>Notions used to state the properties\<close>

definition fileToOpenBlock :: "bool \<Rightarrow> string \<Rightarrow> xml_event list" where
  \<comment> \<open>A \<^verbatim>\<open>fileToOpen\<close> element with the given text, with or without the
      \<^verbatim>\<open>mainFile\<close> attribute.\<close>
  "fileToOpenBlock mainFile text =
     [StartElement ''fileToOpen'']
       @ (if mainFile then [Attribute ''mainFile'' ''true''] else [])
       @ [Characters text, EndElement]"

definition claimed_priority :: "string \<Rightarrow> string \<Rightarrow> int option" where
  \<comment> \<open>The priority that the specification gives a file for an example base name;
      \<^const>\<open>None\<close> for a file that it leaves out of the ranking.\<close>
  "claimed_priority exampleName file =
     (if toLower (baseName file) = toLower exampleName then
        (if endsWith (toLower (fileName file)) ''.qml'' then Some 0
         else if endsWith (toLower (fileName file)) ''.cpp'' then Some 1
         else if endsWith (toLower (fileName file)) ''.h'' then Some 2
         else None)
      else if endsWith (toLower (fileName file)) ''main.qml'' then Some 3
      else if endsWith (toLower (fileName file)) ''main.cpp'' then Some 4
      else None)"

definition attributeKeyValue :: "string \<Rightarrow> string \<times> string" where
  \<comment> \<open>The key and the value of an attribute specification \<^verbatim>\<open>key\<close> or \<^verbatim>\<open>key:value\<close>, as the
      specification reads it: the value is \<^verbatim>\<open>true\<close> when there is no colon.\<close>
  "attributeKeyValue attribute =
     (if CHR '':'' \<in> set attribute
      then (takeWhile (\<lambda>c. c \<noteq> CHR '':'') attribute,
            tl (dropWhile (\<lambda>c. c \<noteq> CHR '':'') attribute))
      else (attribute, ''true''))"

definition configured ::
  "string \<Rightarrow> ManifestMetaFilter list \<Rightarrow> (string \<times> string) list" where
  \<comment> \<open>The attributes that the filters configure for a full name: those of every filter,
      in the order of the filters, once for each of its names that matches.\<close>
  "configured fullName mmc =
     concat (map (\<lambda>index. concat (map (\<lambda>nm. if nameMatches fullName nm
                                              then map attributeKeyValue (attributes index)
                                              else [])
                                     (names index)))
               mmc)"

fun writeNew ::
  "(string \<times> string) list \<Rightarrow> string list \<Rightarrow> (string \<times> string) list" where
  \<comment> \<open>First writer wins: the entries of a list whose key is neither used before nor
      the key of an earlier entry.\<close>
  "writeNew [] ua = []"
| "writeNew (kv # cs) ua =
     (if fst kv \<in> set ua then writeNew cs ua else kv # writeNew cs (ua @ [fst kv]))"

definition matchingTags :: "string \<Rightarrow> ManifestMetaFilter list \<Rightarrow> string set" where
  \<comment> \<open>The tags of the filters that have a name matching the full name.\<close>
  "matchingTags fullName mmc =
     \<Union> (tags ` {index \<in> set mmc. list_ex (nameMatches fullName) (names index)})"

definition exampleElement ::
  "ManifestWriter \<Rightarrow> (ExampleNode \<Rightarrow> string) \<Rightarrow> string \<Rightarrow> ExampleNode \<Rightarrow> xml_event list" where
  \<comment> \<open>What one iteration of the loop writes for an example when \<^verbatim>\<open>m_tags\<close> is empty before it.\<close>
  "exampleElement mw fileBase element example =
     fst (snd (exampleBody mw fileBase element example ({}, [], [])))"

definition exampleWarnings ::
  "ManifestWriter \<Rightarrow> (ExampleNode \<Rightarrow> string) \<Rightarrow> string \<Rightarrow> ExampleNode \<Rightarrow> string list" where
  \<comment> \<open>The warnings that the iteration issues.\<close>
  "exampleWarnings mw fileBase element example =
     snd (snd (exampleBody mw fileBase element example ({}, [], [])))"

definition manifestDocument ::
  "ManifestWriter \<Rightarrow> (ExampleNode \<Rightarrow> string) \<Rightarrow> string \<Rightarrow> string \<Rightarrow> ExampleNode list
     \<Rightarrow> xml_event list" where
  \<comment> \<open>A manifest document with the elements of the given examples, in their order.\<close>
  "manifestDocument mw fileBase manifest element examples =
     [StartDocument, StartElement ''instructionals'', Attribute ''module'' (m_project mw),
      StartElement manifest]
       @ concat (map (exampleElement mw fileBase element) examples)
       @ [EndElement, EndElement, EndDocument]"

text \<open>A writer with one demo and one example, for a concrete instance of the partition.\<close>

definition demoNode :: ExampleNode where
  "demoNode = \<lparr>name = ''demos/clock'', title = ''Clock'', projectFile = ''clock.pro'',
                imageFileName = [], files = [''clock.cpp''], briefText = [],
                metaTagMap = None\<rparr>"

definition exampleNode :: ExampleNode where
  "exampleNode = \<lparr>name = ''widgets/calculator'', title = ''Calculator'',
                   projectFile = [], imageFileName = [], files = [''main.cpp''],
                   briefText = ''A calculator'', metaTagMap = None\<rparr>"

definition sampleWriter :: ManifestWriter where
  "sampleWriter = \<lparr>m_project = ''QtWidgets'', m_outputDirectory = ''out'',
                    m_manifestDir = ''qthelp://org.qt/'', m_examplesPath = [],
                    m_manifestMetaContent = [], m_tags = {},
                    exampleNodeMap = [demoNode, exampleNode]\<rparr>"

section \<open>Properties\<close>

subsection \<open>The ranking of the files to open\<close>

lemma qmap_insert_keys: "fst ` set (qmap_insert k v m) = insert k (fst ` set m)"
  by (induction k v m rule: qmap_insert.induct) auto

lemma qmap_insert_sorted:
  "sorted_wrt (<) (map fst m) \<Longrightarrow> sorted_wrt (<) (map fst (qmap_insert k v m))"
proof (induction m)
  case Nil
  then show ?case by simp
next
  case (Cons e m)
  obtain k' v' where e: "e = (k', v')" by (cases e)
  from Cons show ?case using qmap_insert_keys[of k v m]
    by (auto simp: e)
qed

lemma map_of_qmap_insert: "map_of (qmap_insert k v m) = (map_of m)(k \<mapsto> v)"
  by (induction k v m rule: qmap_insert.induct) (auto simp: fun_upd_twist)

lemma getFilesToOpen_loop_sorted:
  "sorted_wrt (<) (map fst m) \<Longrightarrow> sorted_wrt (<) (map fst (getFilesToOpen_loop fs ex m))"
  by (induction fs arbitrary: m) (simp_all add: Let_def qmap_insert_sorted)

lemma getFilesToOpen_sorted: "sorted_wrt (<) (map fst (getFilesToOpen fs ex))"
  by (simp add: getFilesToOpen_def getFilesToOpen_loop_sorted)

lemma getFilesToOpen_loop_step:
  "getFilesToOpen_loop (f # fs) ex m =
     getFilesToOpen_loop fs ex
       (case claimed_priority ex f of None \<Rightarrow> m | Some p \<Rightarrow> qmap_insert p f m)"
  by (simp add: claimed_priority_def compare_ci_def Let_def)

lemma map_of_getFilesToOpen_loop:
  "map_of (getFilesToOpen_loop fs ex m) p =
     (if filter (\<lambda>f. claimed_priority ex f = Some p) fs = [] then map_of m p
      else Some (last (filter (\<lambda>f. claimed_priority ex f = Some p) fs)))"
proof (induction fs arbitrary: m)
  case Nil
  then show ?case by simp
next
  case (Cons f fs)
  show ?case
    unfolding getFilesToOpen_loop_step Cons.IH
    by (cases "claimed_priority ex f") (simp_all add: map_of_qmap_insert)
qed

text \<open>
  C5. The ranking has at most one file for a priority, in ascending order of priority,
  and the file at priority \<open>p\<close> is the last file of the input list to which the
  specification gives priority \<open>p\<close>: 0, 1 and 2 for a base name that equals the example
  base name up to case and a lowercased file name ending in .qml, .cpp and .h, and 3
  and 4 for another base name and a lowercased file name ending in main.qml and
  main.cpp. A priority that no file of the list gets is absent, and so is every file
  without a priority.
\<close>

theorem getFilesToOpen_ranking:
  "sorted_wrt (<) (map fst (getFilesToOpen fs exampleName)) \<and>
   map_of (getFilesToOpen fs exampleName) p =
     (if filter (\<lambda>f. claimed_priority exampleName f = Some p) fs = [] then None
      else Some (last (filter (\<lambda>f. claimed_priority exampleName f = Some p) fs)))"
  by (simp add: getFilesToOpen_sorted) (simp add: getFilesToOpen_def map_of_getFilesToOpen_loop)

subsection \<open>Writing the files to open\<close>

lemma writeFilesToOpen_loop_blocks:
  "writeFilesToOpen_loop n w ip m =
     w @ concat (map (\<lambda>i. fileToOpenBlock (i = 0) (ip @ snd (m ! i))) (rev [0..<n]))"
  by (induction n arbitrary: w) (simp_all add: fileToOpenBlock_def)

lemma rev_upt_Suc: "rev [0..<Suc n] = map Suc (rev [0..<n]) @ [0]"
proof -
  have "[0..<Suc n] = 0 # map Suc [0..<n]"
    by (simp add: upt_conv_Cons map_Suc_upt del: upt_Suc)
  then show ?thesis by (simp add: rev_map)
qed

lemma writeFilesToOpen_Cons:
  "writeFilesToOpen w ip ((k, v) # m) =
     w @ concat (map (\<lambda>e. fileToOpenBlock False (ip @ snd e)) (rev m))
       @ fileToOpenBlock True (ip @ v)"
proof -
  have "map (\<lambda>i. fileToOpenBlock False (ip @ snd (m ! i))) (rev [0..<length m])
          = map (\<lambda>e. fileToOpenBlock False (ip @ snd e)) (rev m)"
  proof -
    have "map (\<lambda>i. fileToOpenBlock False (ip @ snd (m ! i))) [0..<length m]
            = map (\<lambda>e. fileToOpenBlock False (ip @ snd e)) m"
      by (rule nth_equalityI) simp_all
    then have "rev (map (\<lambda>i. fileToOpenBlock False (ip @ snd (m ! i))) [0..<length m])
            = rev (map (\<lambda>e. fileToOpenBlock False (ip @ snd e)) m)"
      by (rule arg_cong)
    then show ?thesis by (simp only: rev_map)
  qed
  then show ?thesis
    unfolding writeFilesToOpen_def writeFilesToOpen_loop_blocks rev_upt_Suc length_Cons
    by (simp add: o_def)
qed

lemma map_fst_nth_rev:
  "map (\<lambda>i. fst (m ! i)) (rev [0..<length m]) = rev (map fst m)"
proof -
  have "map (\<lambda>i. fst (m ! i)) [0..<length m] = map fst m"
    by (rule nth_equalityI) simp_all
  then have "rev (map (\<lambda>i. fst (m ! i)) [0..<length m]) = rev (map fst m)"
    by (rule arg_cong)
  then show ?thesis by (simp only: rev_map)
qed

lemma filter_mainFile_block:
  "filter (\<lambda>e. e = Attribute ''mainFile'' ''true'') (fileToOpenBlock b t) =
     (if b then [Attribute ''mainFile'' ''true''] else [])"
  by (simp add: fileToOpenBlock_def)

lemma filter_mainFile_blocks_False:
  "filter (\<lambda>e. e = Attribute ''mainFile'' ''true'')
     (concat (map (\<lambda>e. fileToOpenBlock False (ip @ snd e)) es)) = []"
  by (induction es) (simp_all add: filter_mainFile_block)

text \<open>
  C1, as the code has it. For a ranking in ascending order of priority, as
  \<open>getFilesToOpen\<close> returns it, the \<^verbatim>\<open>fileToOpen\<close> elements are written for the entries
  from the last to the first, so the priority numbers of the elements written are
  strictly decreasing: the most preferred file is written last.
\<close>

theorem writeFilesToOpen_descending:
  assumes "sorted_wrt (<) (map fst filesToOpen)"
  shows "writeFilesToOpen writer installPath filesToOpen =
           writer @ concat (map (\<lambda>i. fileToOpenBlock (i = 0) (installPath @ snd (filesToOpen ! i)))
                              (rev [0..<length filesToOpen]))
         \<and> sorted_wrt (>) (map (\<lambda>i. fst (filesToOpen ! i)) (rev [0..<length filesToOpen]))"
proof
  show "writeFilesToOpen writer installPath filesToOpen =
           writer @ concat (map (\<lambda>i. fileToOpenBlock (i = 0) (installPath @ snd (filesToOpen ! i)))
                              (rev [0..<length filesToOpen]))"
    by (simp only: writeFilesToOpen_def writeFilesToOpen_loop_blocks)
  have "sorted_wrt (>) (rev (map fst filesToOpen))"
    using assms by (simp only: sorted_wrt_rev)
  then show "sorted_wrt (>) (map (\<lambda>i. fst (filesToOpen ! i)) (rev [0..<length filesToOpen]))"
    by (simp only: map_fst_nth_rev)
qed

theorem writeFilesToOpen_descending_witness:
  "sorted_wrt (<) (map fst [(0::int, ''foo.qml''), (1, ''foo.cpp'')]) \<and>
   writeFilesToOpen [] ''p/'' [(0, ''foo.qml''), (1, ''foo.cpp'')] =
     fileToOpenBlock False ''p/foo.cpp'' @ fileToOpenBlock True ''p/foo.qml''"
  using writeFilesToOpen_descending [of "[(0, ''foo.qml''), (1, ''foo.cpp'')]" "[]" "''p/''"]
  by (simp add: upt_rec)

text \<open>
  C1, as the specification states it, fails: for the files foo.qml and foo.cpp of the
  example foo, the ranking holds foo.qml at priority 0 and foo.cpp at priority 1, and
  the element of foo.cpp, of priority 1, is written first.
\<close>

theorem writeFilesToOpen_ascending_counterexample:
  "getFilesToOpen [''foo.qml'', ''foo.cpp''] ''foo'' = [(0, ''foo.qml''), (1, ''foo.cpp'')] \<and>
   writeFilesToOpen [] [] [(0, ''foo.qml''), (1, ''foo.cpp'')] =
     [StartElement ''fileToOpen'', Characters ''foo.cpp'', EndElement,
      StartElement ''fileToOpen'', Attribute ''mainFile'' ''true'', Characters ''foo.qml'',
      EndElement]"
  by (simp add: getFilesToOpen_def Let_def compare_ci_def baseName_def fileName_def toLower_def
      toLower_c_def lastIndexOf_def mid_def endsWith_def suffix_def writeFilesToOpen_def)

text \<open>
  C4. For an empty ranking nothing is written. For a non-empty ranking in ascending
  order of priority, the elements written are those of the entries after the first, all
  without the \<^verbatim>\<open>mainFile\<close> attribute, and then the element of the first entry with
  \<^verbatim>\<open>mainFile="true"\<close>; so the attribute is written exactly once, and the entry that
  carries it has the lowest priority number of the ranking.
\<close>

theorem writeFilesToOpen_mainFile:
  "writeFilesToOpen writer installPath [] = writer \<and>
   (filesToOpen \<noteq> [] \<and> sorted_wrt (<) (map fst filesToOpen) \<longrightarrow>
      writeFilesToOpen writer installPath filesToOpen =
        writer @ concat (map (\<lambda>e. fileToOpenBlock False (installPath @ snd e))
                           (rev (tl filesToOpen)))
          @ fileToOpenBlock True (installPath @ snd (hd filesToOpen))
      \<and> length (filter (\<lambda>e. e = Attribute ''mainFile'' ''true'')
                  (drop (length writer) (writeFilesToOpen writer installPath filesToOpen))) = 1
      \<and> (\<forall>e \<in> set filesToOpen. fst (hd filesToOpen) \<le> fst e))"
proof (intro conjI impI)
  show "writeFilesToOpen writer installPath [] = writer"
    by (simp add: writeFilesToOpen_def)
next
  assume a: "filesToOpen \<noteq> [] \<and> sorted_wrt (<) (map fst filesToOpen)"
  then obtain k v m where m: "filesToOpen = (k, v) # m"
    by (cases filesToOpen) auto
  show eq: "writeFilesToOpen writer installPath filesToOpen =
        writer @ concat (map (\<lambda>e. fileToOpenBlock False (installPath @ snd e))
                           (rev (tl filesToOpen)))
          @ fileToOpenBlock True (installPath @ snd (hd filesToOpen))"
    by (simp only: m writeFilesToOpen_Cons list.sel snd_conv)
  show "length (filter (\<lambda>e. e = Attribute ''mainFile'' ''true'')
                  (drop (length writer) (writeFilesToOpen writer installPath filesToOpen))) = 1"
    unfolding eq by (simp add: filter_mainFile_block filter_mainFile_blocks_False)
  show "\<forall>e \<in> set filesToOpen. fst (hd filesToOpen) \<le> fst e"
    using a by (auto simp: m)
qed

theorem writeFilesToOpen_mainFile_witness:
  "[(0::int, ''foo.qml''), (1, ''foo.cpp'')] \<noteq> [] \<and>
   sorted_wrt (<) (map fst [(0::int, ''foo.qml''), (1, ''foo.cpp'')]) \<and>
   writeFilesToOpen [] ''p/'' [(0, ''foo.qml''), (1, ''foo.cpp'')] =
     fileToOpenBlock False ''p/foo.cpp'' @ fileToOpenBlock True ''p/foo.qml''"
  using writeFilesToOpen_mainFile [of "[]" "''p/''" "[(0, ''foo.qml''), (1, ''foo.cpp'')]"]
  by simp

subsection \<open>Attributes and tags from the manifest meta filters\<close>

lemma split_unfold:
  "split sep s =
     takeWhile (\<lambda>c. c \<noteq> sep) s
       # (if sep \<in> set s then split sep (tl (dropWhile (\<lambda>c. c \<noteq> sep) s)) else [])"
  by (induction s) auto

lemma split_not_Nil: "split sep s \<noteq> []"
  by (subst split_unfold) simp

lemma join_Cons_Cons: "join sep ((c # p) # ps) = c # join sep (p # ps)"
  by (cases ps) simp_all

lemma join_split: "join [sep] (split sep s) = s"
proof (induction s)
  case Nil
  then show ?case by simp
next
  case (Cons c cs)
  obtain p ps where sp: "split sep cs = p # ps"
    using split_not_Nil[of sep cs] by (cases "split sep cs") auto
  with Cons show ?case by (auto simp: join_Cons_Cons)
qed

lemma processAttribute_eq:
  "processAttribute a (ua, w) =
     (if fst (attributeKeyValue a) \<in> set ua then (ua, w)
      else (ua @ [fst (attributeKeyValue a)],
            w @ [Attribute (fst (attributeKeyValue a)) (snd (attributeKeyValue a))]))"
proof (cases "CHR '':'' \<in> set a")
  case True
  obtain p ps where sp: "split CHR '':'' (tl (dropWhile (\<lambda>c. c \<noteq> CHR '':'') a)) = p # ps"
    using split_not_Nil[of "CHR '':''" "tl (dropWhile (\<lambda>c. c \<noteq> CHR '':'') a)"]
    by (cases "split CHR '':'' (tl (dropWhile (\<lambda>c. c \<noteq> CHR '':'') a))") auto
  have j: "join '':'' (p # ps) = tl (dropWhile (\<lambda>c. c \<noteq> CHR '':'') a)"
    using join_split[of "CHR '':''" "tl (dropWhile (\<lambda>c. c \<noteq> CHR '':'') a)"] sp by simp
  have s: "split CHR '':'' a = takeWhile (\<lambda>c. c \<noteq> CHR '':'') a # p # ps"
    using True sp by (subst split_unfold) simp
  show ?thesis
    using True j by (simp add: processAttribute_def s attributeKeyValue_def)
next
  case False
  then have s: "split CHR '':'' a = [a]"
    by (subst split_unfold) (auto simp: takeWhile_eq_all_conv)
  show ?thesis
    using False by (simp add: processAttribute_def s attributeKeyValue_def)
qed

lemma fold_processAttribute:
  "fold processAttribute as (ua, w) =
     (ua @ map fst (writeNew (map attributeKeyValue as) ua),
      w @ map (case_prod Attribute) (writeNew (map attributeKeyValue as) ua))"
  by (induction as arbitrary: ua w) (simp_all add: processAttribute_eq case_prod_beta)

lemma writeNew_append:
  "writeNew (cs @ ds) ua = writeNew cs ua @ writeNew ds (ua @ map fst (writeNew cs ua))"
  by (induction cs arbitrary: ua) simp_all

lemma writeNew_keys: "fst ` set (writeNew cs ua) \<inter> set ua = {}"
proof (induction cs arbitrary: ua)
  case Nil
  then show ?case by simp
next
  case (Cons kv cs)
  from Cons[of ua] Cons[of "ua @ [fst kv]"] show ?case by auto
qed

lemma writeNew_distinct: "distinct (map fst (writeNew cs ua))"
proof (induction cs arbitrary: ua)
  case Nil
  then show ?case by simp
next
  case (Cons kv cs)
  from Cons[of ua] Cons[of "ua @ [fst kv]"] writeNew_keys[of cs "ua @ [fst kv]"]
  show ?case by auto
qed

lemma map_of_writeNew:
  "map_of (writeNew cs ua) k = (if k \<in> set ua then None else map_of cs k)"
proof (induction cs arbitrary: ua)
  case Nil
  then show ?case by simp
next
  case (Cons kv cs)
  obtain k' v' where kv: "kv = (k', v')" by (cases kv)
  from Cons[of ua] Cons[of "ua @ [k']"] show ?case by (auto simp: kv)
qed

lemma processName_step:
  "processName index fullName nm (tgs, ua, w) =
     (if nameMatches fullName nm
      then (tgs \<union> tags index, fold processAttribute (attributes index) (ua, w))
      else (tgs, ua, w))"
  by (simp add: processName_def)

lemma fold_processName:
  "fold (processName index fullName) nms (tgs, ua, w) =
     (let cs = concat (map (\<lambda>nm. if nameMatches fullName nm
                                   then map attributeKeyValue (attributes index) else []) nms)
      in (if list_ex (nameMatches fullName) nms then tgs \<union> tags index else tgs,
          ua @ map fst (writeNew cs ua),
          w @ map (case_prod Attribute) (writeNew cs ua)))"
proof (induction nms arbitrary: tgs ua w)
  case Nil
  then show ?case by simp
next
  case (Cons nm nms)
  show ?case
  proof (cases "nameMatches fullName nm")
    case True
    then show ?thesis
      by (auto simp: processName_step fold_processAttribute Cons Let_def writeNew_append)
  next
    case False
    then show ?thesis by (simp add: processName_step Cons Let_def)
  qed
qed

lemma fold_filters:
  "fold (\<lambda>index. fold (processName index fullName) (names index)) mmc (tgs, ua, w) =
     (tgs \<union> matchingTags fullName mmc,
      ua @ map fst (writeNew (configured fullName mmc) ua),
      w @ map (case_prod Attribute) (writeNew (configured fullName mmc) ua))"
proof (induction mmc arbitrary: tgs ua w)
  case Nil
  then show ?case by (simp add: matchingTags_def configured_def)
next
  case (Cons index mmc)
  have c: "configured fullName (index # mmc) =
             concat (map (\<lambda>nm. if nameMatches fullName nm
                                   then map attributeKeyValue (attributes index) else [])
                       (names index)) @ configured fullName mmc"
    by (simp add: configured_def)
  have t: "matchingTags fullName (index # mmc) =
             (if list_ex (nameMatches fullName) (names index) then tags index else {})
               \<union> matchingTags fullName mmc"
    by (auto simp: matchingTags_def)
  show ?case
    by (simp add: fold_processName Let_def Cons c t writeNew_append Un_assoc)
qed

lemma processManifestMetaContent_Some:
  "processManifestMetaContent mmc fullName (Some ua) (Some w) tgs =
     (tgs \<union> matchingTags fullName mmc,
      Some (ua @ map fst (writeNew (configured fullName mmc) ua)),
      Some (w @ map (case_prod Attribute) (writeNew (configured fullName mmc) ua)))"
  by (simp add: processManifestMetaContent_def fold_filters)

lemma writeAlwaysAttributes_eq:
  "writeAlwaysAttributes mw fileBase element example installPath writer =
     (let fixed = [(''name'', title example),
                   (''docUrl'', m_manifestDir mw @ fileBase example @ ''.html'')]
                  @ (if projectFile example \<noteq> []
                     then [(''projectPath'', installPath @ projectFile example)] else [])
                  @ (if imageFileName example \<noteq> []
                     then [(''imageUrl'', m_manifestDir mw @ imageFileName example)] else [])
      in (map fst fixed, writer @ [StartElement element] @ map (case_prod Attribute) fixed))"
  by (simp add: writeAlwaysAttributes_def Let_def)

text \<open>
  Two matching filters that configure the attribute category: the value of the first
  is written, and docUrl, which is always written before, is not written again.
\<close>

lemma first_writer_wins_example:
  "processManifestMetaContent
     [\<lparr>names = [''*''], attributes = [''category:first''], tags = {}\<rparr>,
      \<lparr>names = [''QtQuick*''], attributes = [''category:second'', ''docUrl:x''], tags = {}\<rparr>]
     ''QtQuick/Clocks'' (Some [''name'', ''docUrl'']) (Some []) {} =
     ({}, Some [''name'', ''docUrl'', ''category''], Some [Attribute ''category'' ''first''])"
  by (simp add: processManifestMetaContent_def processName_def processAttribute_def
      nameMatches_def indexOf_def left_def startsWith_def)

lemma indexOf_nonneg: "c \<in> set s \<Longrightarrow> indexOf s c = int (length (takeWhile (\<lambda>x. x \<noteq> c) s))"
  by (simp add: indexOf_def)

lemma length_takeWhile_neq:
  "c \<in> set s \<Longrightarrow> length (takeWhile (\<lambda>x. x \<noteq> c) s) < length s"
  by (induction s) auto

text \<open>
  C7. A name without an asterisk matches exactly the full name equal to it; the name
  that is a single asterisk matches every full name; and a name with its first asterisk
  after the first character matches exactly the full names that start with what
  precedes that asterisk.
\<close>

theorem nameMatches_cases:
  "(CHR ''*'' \<notin> set nm \<longrightarrow> nameMatches fullName nm = (fullName = nm))
   \<and> nameMatches fullName ''*''
   \<and> (CHR ''*'' \<in> set nm \<and> hd nm \<noteq> CHR ''*'' \<longrightarrow>
        nameMatches fullName nm =
          startsWith fullName (takeWhile (\<lambda>c. c \<noteq> CHR ''*'') nm))"
proof (intro conjI impI)
  assume "CHR ''*'' \<notin> set nm"
  then show "nameMatches fullName nm = (fullName = nm)"
    by (simp add: nameMatches_def indexOf_def)
next
  show "nameMatches fullName ''*''"
    by (simp add: nameMatches_def indexOf_def)
next
  assume a: "CHR ''*'' \<in> set nm \<and> hd nm \<noteq> CHR ''*''"
  let ?n = "length (takeWhile (\<lambda>c. c \<noteq> CHR ''*'') nm)"
  from a obtain c cs where nm: "nm = c # cs" and c: "c \<noteq> CHR ''*''"
    by (cases nm) auto
  have pos: "0 < ?n" by (simp add: nm c)
  have lt: "?n < length nm"
    using a by (simp add: length_takeWhile_neq)
  have "left nm (int ?n) = take ?n nm"
    using lt by (simp add: left_def)
  also have "\<dots> = takeWhile (\<lambda>c. c \<noteq> CHR ''*'') nm"
    by (rule takeWhile_eq_take[symmetric])
  finally have l: "left nm (int ?n) = takeWhile (\<lambda>c. c \<noteq> CHR ''*'') nm" .
  show "nameMatches fullName nm = startsWith fullName (takeWhile (\<lambda>c. c \<noteq> CHR ''*'') nm)"
    using a pos l by (simp add: nameMatches_def indexOf_nonneg Let_def)
qed

theorem nameMatches_cases_witness:
  "CHR ''*'' \<notin> set ''MyModule/Foo'' \<and> nameMatches ''MyModule/Foo'' ''MyModule/Foo''
   \<and> \<not> nameMatches ''MyModule/Bar'' ''MyModule/Foo''
   \<and> CHR ''*'' \<in> set ''MyModule*'' \<and> hd ''MyModule*'' \<noteq> CHR ''*''
   \<and> nameMatches ''MyModule/Foo'' ''MyModule*''
   \<and> \<not> nameMatches ''Other/Foo'' ''MyModule*''"
  using nameMatches_cases [of "''MyModule/Foo''" "''MyModule/Foo''"]
    nameMatches_cases [of "''MyModule/Foo''" "''MyModule/Bar''"]
    nameMatches_cases [of "''MyModule*''" "''MyModule/Foo''"]
    nameMatches_cases [of "''MyModule*''" "''Other/Foo''"]
  by (simp add: startsWith_def)

lemma nameMatches_leading: "nm \<noteq> [] \<Longrightarrow> hd nm = CHR ''*'' \<Longrightarrow> nameMatches fullName nm"
  by (cases nm) (simp_all add: nameMatches_def indexOf_def)

lemma written_entry:
  assumes "(k, v) \<in> set cs"
  shows "k \<in> set (ua @ map fst cs)
     \<and> (k \<in> set ua \<or> (\<exists>v. Attribute k v \<in> set (drop (length w) (w @ map (case_prod Attribute) cs))))"
proof -
  have "k \<in> fst ` set cs" using assms by (rule rev_image_eqI) simp
  moreover have "Attribute k v \<in> case_prod Attribute ` set cs"
    using assms by (rule rev_image_eqI) simp
  ultimately show ?thesis by auto
qed

text \<open>
  C10. A name that begins with an asterisk matches every full name, whatever follows
  the asterisk. A filter with such a name is applied to every full name: its tags are
  added to the tags, and the key of each of its attributes is used after the call,
  either used before it or written by it.
\<close>

theorem leading_wildcard_matches_all:
  assumes "nm \<noteq> []" and "hd nm = CHR ''*''"
    and "index \<in> set mmc" and "nm \<in> set (names index)"
  shows "nameMatches fullName nm
     \<and> (\<exists>tgs' ua' w'.
          processManifestMetaContent mmc fullName (Some ua) (Some w) tgs
            = (tgs', Some ua', Some w')
          \<and> tags index \<subseteq> tgs'
          \<and> (\<forall>a \<in> set (attributes index).
                fst (attributeKeyValue a) \<in> set ua'
                \<and> (fst (attributeKeyValue a) \<in> set ua
                    \<or> (\<exists>v. Attribute (fst (attributeKeyValue a)) v \<in> set (drop (length w) w')))))"
proof
  show m: "nameMatches fullName nm" using assms(1,2) by (rule nameMatches_leading)
  let ?cfg = "configured fullName mmc"
  let ?written = "writeNew ?cfg ua"
  have ex: "list_ex (nameMatches fullName) (names index)"
    using m assms(4) by (auto simp: list_ex_iff)
  then have t: "tags index \<subseteq> tgs \<union> matchingTags fullName mmc"
    using assms(3) by (auto simp: matchingTags_def)
  have cfg: "attributeKeyValue a \<in> set ?cfg" if "a \<in> set (attributes index)" for a
    using that m assms(3,4) by (fastforce simp: configured_def)
  have att: "fst (attributeKeyValue a) \<in> set (ua @ map fst ?written)
       \<and> (fst (attributeKeyValue a) \<in> set ua
          \<or> (\<exists>v. Attribute (fst (attributeKeyValue a)) v
                  \<in> set (drop (length w) (w @ map (case_prod Attribute) ?written))))"
    if a: "a \<in> set (attributes index)" for a
  proof (cases "fst (attributeKeyValue a) \<in> set ua")
    case True
    then show ?thesis by simp
  next
    case False
    have "fst (attributeKeyValue a) \<in> fst ` set ?cfg"
      using cfg[OF a] by (rule imageI)
    then have "map_of ?cfg (fst (attributeKeyValue a)) \<noteq> None"
      by (simp add: map_of_eq_None_iff)
    with False have "map_of ?written (fst (attributeKeyValue a)) \<noteq> None"
      by (simp add: map_of_writeNew)
    then obtain v where "map_of ?written (fst (attributeKeyValue a)) = Some v"
      by auto
    then have "(fst (attributeKeyValue a), v) \<in> set ?written"
      by (rule map_of_SomeD)
    then show ?thesis by (rule written_entry)
  qed
  show "\<exists>tgs' ua' w'.
          processManifestMetaContent mmc fullName (Some ua) (Some w) tgs
            = (tgs', Some ua', Some w')
          \<and> tags index \<subseteq> tgs'
          \<and> (\<forall>a \<in> set (attributes index).
                fst (attributeKeyValue a) \<in> set ua'
                \<and> (fst (attributeKeyValue a) \<in> set ua
                    \<or> (\<exists>v. Attribute (fst (attributeKeyValue a)) v \<in> set (drop (length w) w'))))"
  proof (intro exI conjI)
    show "processManifestMetaContent mmc fullName (Some ua) (Some w) tgs =
            (tgs \<union> matchingTags fullName mmc, Some (ua @ map fst ?written),
             Some (w @ map (case_prod Attribute) ?written))"
      by (rule processManifestMetaContent_Some)
    show "tags index \<subseteq> tgs \<union> matchingTags fullName mmc" by (rule t)
    show "\<forall>a \<in> set (attributes index).
            fst (attributeKeyValue a) \<in> set (ua @ map fst ?written)
            \<and> (fst (attributeKeyValue a) \<in> set ua
                \<or> (\<exists>v. Attribute (fst (attributeKeyValue a)) v
                        \<in> set (drop (length w) (w @ map (case_prod Attribute) ?written))))"
      by (intro ballI) (rule att)
  qed
qed

theorem leading_wildcard_matches_all_witness:
  "''*Foo'' \<noteq> [] \<and> hd ''*Foo'' = CHR ''*''
   \<and> nameMatches ''QtWidgets/Calculator'' ''*Foo''
   \<and> processManifestMetaContent
        [\<lparr>names = [''*Foo''], attributes = [''highlighted''], tags = {''widgets''}\<rparr>]
        ''QtWidgets/Calculator'' (Some [''name'', ''docUrl'']) (Some []) {} =
      ({''widgets''}, Some [''name'', ''docUrl'', ''highlighted''],
       Some [Attribute ''highlighted'' ''true''])"
  using leading_wildcard_matches_all
    [of "''*Foo''" "\<lparr>names = [''*Foo''], attributes = [''highlighted''], tags = {''widgets''}\<rparr>"
        "[\<lparr>names = [''*Foo''], attributes = [''highlighted''], tags = {''widgets''}\<rparr>]"
        "''QtWidgets/Calculator''" "[''name'', ''docUrl'']" "[]" "{}"]
  by (simp add: processManifestMetaContent_def processName_def processAttribute_def
      nameMatches_def indexOf_def)

subsection \<open>Tags and the two manifests\<close>

lemma writeFilesToOpen_append:
  "writeFilesToOpen w ip m = w @ writeFilesToOpen [] ip m"
  by (simp add: writeFilesToOpen_def writeFilesToOpen_loop_blocks)

lemma writeTagsElement_Some:
  "writeTagsElement (Some w) tgs =
     (Some (w @ (if tgs = {} then []
                 else [StartElement ''tags'', Characters (join '','' (sorted_list_of_set tgs)),
                       EndElement])), {})"
  by (simp add: writeTagsElement_def)

lemma exampleBody_append:
  "exampleBody mw fb el ex (tgs, w, ws) =
     ({}, w @ fst (snd (exampleBody mw fb el ex (tgs, [], []))),
      ws @ snd (snd (exampleBody mw fb el ex (tgs, [], []))))"
  by (simp add: exampleBody_def Let_def case_prod_beta writeAlwaysAttributes_eq
      processManifestMetaContent_Some writeDescription_def writeTagsElement_Some
      writeFilesToOpen_append[of "_ @ _"])

lemma exampleBody_tags: "fst (exampleBody mw fb el ex st) = {}"
proof -
  obtain tgs w ws where st: "st = (tgs, w, ws)" by (cases st) auto
  show ?thesis unfolding st by (subst exampleBody_append) simp
qed

lemma exampleBody_attributes:
  "fst (snd (exampleBody mw fb el ex (tgs, w, ws))) =
     (let installPath = retrieveExampleInstallationPath (m_examplesPath mw) ex;
          fixed = [(''name'', title ex), (''docUrl'', m_manifestDir mw @ fb ex @ ''.html'')]
                  @ (if projectFile ex \<noteq> []
                     then [(''projectPath'', installPath @ projectFile ex)] else [])
                  @ (if imageFileName ex \<noteq> []
                     then [(''imageUrl'', m_manifestDir mw @ imageFileName ex)] else []);
          written = writeNew (configured (m_project mw @ ''/'' @ title ex)
                                (m_manifestMetaContent mw)) (map fst fixed);
          tgs' = cleanUpTags (addTitleWordsToTags (Some ex)
                   (includeTagsAddedWithMetaCommand (Some ex)
                      (addWordsFromModuleNamesAsTags (m_project mw)
                         (tgs \<union> matchingTags (m_project mw @ ''/'' @ title ex)
                                   (m_manifestMetaContent mw)))))
      in w @ [StartElement el] @ map (case_prod Attribute) (fixed @ written)
           @ writeDescription [] ex
           @ (if tgs' = {} then []
              else [StartElement ''tags'', Characters (join '','' (sorted_list_of_set tgs')),
                    EndElement])
           @ writeFilesToOpen [] installPath
               (getFilesToOpen (files ex)
                  (mid (name ex) (lastIndexOf (name ex) CHR ''/'' + 1)))
           @ [EndElement])"
  by (simp add: exampleBody_def Let_def case_prod_beta writeAlwaysAttributes_eq
      processManifestMetaContent_Some writeDescription_def writeTagsElement_Some
      writeFilesToOpen_append[of "_ @ _"])

text \<open>
  C6. The filters write, after the attributes already written, the attributes they
  configure for the full name, each key once: no key is written that was used before
  the call, and a key that was not gets the value of its first configuration, in the
  order of the filters. For every example the loop of \<open>generateManifestFile\<close> writes,
  after the start of the element, the attributes name and docUrl, projectPath and
  imageUrl when the example has them, and then those of the filters, with these keys as
  the keys used before: all the keys of the element differ, and a key of the filters
  has the value of its first configuration.
\<close>

theorem first_writer_wins:
  "(\<exists>written.
      snd (processManifestMetaContent mmc fullName (Some ua) (Some w) tgs) =
        (Some (ua @ map fst written), Some (w @ map (case_prod Attribute) written))
      \<and> distinct (map fst written)
      \<and> fst ` set written \<inter> set ua = {}
      \<and> (\<forall>k. map_of written k =
                (if k \<in> set ua then None else map_of (configured fullName mmc) k)))
   \<and> (\<exists>fixed written rest.
      fst (snd (exampleBody mw fileBase element example (tgs, writer, warnings))) =
        writer @ [StartElement element] @ map (case_prod Attribute) (fixed @ written)
          @ [StartElement ''description''] @ rest
      \<and> fixed =
          [(''name'', title example),
           (''docUrl'', m_manifestDir mw @ fileBase example @ ''.html'')]
            @ (if projectFile example \<noteq> []
               then [(''projectPath'',
                      retrieveExampleInstallationPath (m_examplesPath mw) example
                        @ projectFile example)]
               else [])
            @ (if imageFileName example \<noteq> []
               then [(''imageUrl'', m_manifestDir mw @ imageFileName example)] else [])
      \<and> distinct (map fst (fixed @ written))
      \<and> (\<forall>k. map_of written k =
                (if k \<in> fst ` set fixed then None
                 else map_of (configured (m_project mw @ ''/'' @ title example)
                                (m_manifestMetaContent mw)) k)))"
proof
  let ?written = "writeNew (configured fullName mmc) ua"
  have "snd (processManifestMetaContent mmc fullName (Some ua) (Some w) tgs) =
          (Some (ua @ map fst ?written), Some (w @ map (case_prod Attribute) ?written))"
    by (simp add: processManifestMetaContent_Some)
  moreover have "distinct (map fst ?written)" by (rule writeNew_distinct)
  moreover have "fst ` set ?written \<inter> set ua = {}" by (rule writeNew_keys)
  moreover have "\<forall>k. map_of ?written k =
                  (if k \<in> set ua then None else map_of (configured fullName mmc) k)"
    by (simp add: map_of_writeNew)
  ultimately show "\<exists>written.
      snd (processManifestMetaContent mmc fullName (Some ua) (Some w) tgs) =
        (Some (ua @ map fst written), Some (w @ map (case_prod Attribute) written))
      \<and> distinct (map fst written)
      \<and> fst ` set written \<inter> set ua = {}
      \<and> (\<forall>k. map_of written k =
                (if k \<in> set ua then None else map_of (configured fullName mmc) k))"
    by blast
next
  define fixed where "fixed =
          [(''name'', title example),
           (''docUrl'', m_manifestDir mw @ fileBase example @ ''.html'')]
            @ (if projectFile example \<noteq> []
               then [(''projectPath'',
                      retrieveExampleInstallationPath (m_examplesPath mw) example
                        @ projectFile example)]
               else [])
            @ (if imageFileName example \<noteq> []
               then [(''imageUrl'', m_manifestDir mw @ imageFileName example)] else [])"
  define cfg where
    "cfg = configured (m_project mw @ ''/'' @ title example) (m_manifestMetaContent mw)"
  define written where "written = writeNew cfg (map fst fixed)"
  have dfix: "distinct (map fst fixed)" by (simp add: fixed_def)
  have dw: "distinct (map fst written)" unfolding written_def by (rule writeNew_distinct)
  have disj: "fst ` set written \<inter> set (map fst fixed) = {}"
    unfolding written_def by (rule writeNew_keys)
  have d: "distinct (map fst (fixed @ written))"
    using dfix dw disj by auto
  have m: "\<forall>k. map_of written k = (if k \<in> fst ` set fixed then None else map_of cfg k)"
    by (simp add: written_def map_of_writeNew)
  have "\<exists>rest. fst (snd (exampleBody mw fileBase element example (tgs, writer, warnings))) =
        writer @ [StartElement element] @ map (case_prod Attribute) (fixed @ written)
          @ [StartElement ''description''] @ rest"
    unfolding exampleBody_attributes Let_def written_def cfg_def fixed_def
    by (simp add: writeDescription_def)
  then obtain rest where
    "fst (snd (exampleBody mw fileBase element example (tgs, writer, warnings))) =
        writer @ [StartElement element] @ map (case_prod Attribute) (fixed @ written)
          @ [StartElement ''description''] @ rest" ..
  with d m show "\<exists>fixed written rest.
      fst (snd (exampleBody mw fileBase element example (tgs, writer, warnings))) =
        writer @ [StartElement element] @ map (case_prod Attribute) (fixed @ written)
          @ [StartElement ''description''] @ rest
      \<and> fixed =
          [(''name'', title example),
           (''docUrl'', m_manifestDir mw @ fileBase example @ ''.html'')]
            @ (if projectFile example \<noteq> []
               then [(''projectPath'',
                      retrieveExampleInstallationPath (m_examplesPath mw) example
                        @ projectFile example)]
               else [])
            @ (if imageFileName example \<noteq> []
               then [(''imageUrl'', m_manifestDir mw @ imageFileName example)] else [])
      \<and> distinct (map fst (fixed @ written))
      \<and> (\<forall>k. map_of written k =
                (if k \<in> fst ` set fixed then None
                 else map_of (configured (m_project mw @ ''/'' @ title example)
                                (m_manifestMetaContent mw)) k))"
    unfolding cfg_def fixed_def by blast
qed

text \<open>
  The element of the demo demos/clock under two matching filters that both configure
  category, the second also name: category has the value of the first filter and name
  is written once, with the title.
\<close>

lemma first_writer_wins_element:
  "exampleElement
     (sampleWriter\<lparr>m_manifestMetaContent :=
        [\<lparr>names = [''*''], attributes = [''category:first''], tags = {}\<rparr>,
         \<lparr>names = [''QtWidgets*''], attributes = [''category:second'', ''name:x''],
          tags = {}\<rparr>]\<rparr>)
     name ''demo'' demoNode =
     [StartElement ''demo'', Attribute ''name'' ''Clock'',
      Attribute ''docUrl'' ''qthelp://org.qt/demos/clock.html'',
      Attribute ''projectPath'' ''clock.pro'', Attribute ''category'' ''first'',
      StartElement ''description'',
      CDATA ''No description available'', EndElement, StartElement ''tags'',
      Characters ''clock,widgets'', EndElement, StartElement ''fileToOpen'',
      Attribute ''mainFile'' ''true'', Characters ''clock.cpp'', EndElement,
      EndElement]"
  by code_simp

lemma exampleElement_content:
  "\<exists>attrs tagsElement.
     exampleElement mw fb el ex =
       StartElement el # Attribute ''name'' (title ex)
         # Attribute ''docUrl'' (m_manifestDir mw @ fb ex @ ''.html'') # attrs
         @ writeDescription [] ex @ tagsElement
         @ writeFilesToOpen [] (retrieveExampleInstallationPath (m_examplesPath mw) ex)
             (getFilesToOpen (files ex) (mid (name ex) (lastIndexOf (name ex) CHR ''/'' + 1)))
         @ [EndElement]"
proof -
  let ?fullName = "m_project mw @ ''/'' @ title ex"
  let ?installPath = "retrieveExampleInstallationPath (m_examplesPath mw) ex"
  let ?optional = "(if projectFile ex \<noteq> []
                     then [(''projectPath'', ?installPath @ projectFile ex)] else [])
                  @ (if imageFileName ex \<noteq> []
                     then [(''imageUrl'', m_manifestDir mw @ imageFileName ex)] else [])"
  let ?written = "writeNew (configured ?fullName (m_manifestMetaContent mw))
                    ([''name'', ''docUrl''] @ map fst ?optional)"
  let ?tgs = "cleanUpTags (addTitleWordsToTags (Some ex)
                (includeTagsAddedWithMetaCommand (Some ex)
                   (addWordsFromModuleNamesAsTags (m_project mw)
                      (matchingTags ?fullName (m_manifestMetaContent mw)))))"
  show ?thesis
    by (rule exI[of _ "map (case_prod Attribute) (?optional @ ?written)"],
        rule exI[of _ "if ?tgs = {} then []
                       else [StartElement ''tags'',
                             Characters (join '','' (sorted_list_of_set ?tgs)), EndElement]"])
       (simp add: exampleElement_def exampleBody_attributes Let_def)
qed

lemma generate_loop_filter:
  "generate_loop mw fb demos el exs st =
     foldl (\<lambda>st ex. exampleBody mw fb el ex st) st
       (filter (\<lambda>ex. startsWith (name ex) ''demos'' = demos) exs)"
proof (induction exs arbitrary: st)
  case Nil
  then show ?case by simp
next
  case (Cons ex exs)
  show ?case
    using Cons.IH by (cases demos; cases "startsWith (name ex) ''demos''") simp_all
qed

lemma foldl_exampleBody:
  "foldl (\<lambda>st ex. exampleBody mw fb el ex st) ({}, w, ws) exs =
     ({}, w @ concat (map (exampleElement mw fb el) exs),
      ws @ concat (map (exampleWarnings mw fb el) exs))"
proof (induction exs arbitrary: w ws)
  case Nil
  then show ?case by simp
next
  case (Cons ex exs)
  have "exampleBody mw fb el ex ({}, w, ws) =
          ({}, w @ exampleElement mw fb el ex, ws @ exampleWarnings mw fb el ex)"
    by (subst exampleBody_append) (simp add: exampleElement_def exampleWarnings_def)
  then show ?case by (simp add: Cons)
qed

lemma foldl_exampleBody_reset:
  "foldl (\<lambda>st ex. exampleBody mw fb el ex st) ({}, w, ws) exs =
     foldl (\<lambda>st ex. exampleBody mw fb el ex ({}, snd st)) ({}, w, ws) exs"
proof (induction exs arbitrary: w ws)
  case Nil
  then show ?case by simp
next
  case (Cons ex exs)
  have "exampleBody mw fb el ex ({}, w, ws) =
          ({}, w @ exampleElement mw fb el ex, ws @ exampleWarnings mw fb el ex)"
    by (subst exampleBody_append) (simp add: exampleElement_def exampleWarnings_def)
  then show ?case by (simp add: Cons)
qed

lemma foldl_exampleBody_tags:
  "fst (foldl (\<lambda>st ex. exampleBody mw fb el ex st) st exs) \<subseteq> fst st"
proof (induction exs arbitrary: st)
  case Nil
  then show ?case by simp
next
  case (Cons ex exs)
  have "fst (foldl (\<lambda>st ex. exampleBody mw fb el ex st) (exampleBody mw fb el ex st) exs)
          \<subseteq> fst (exampleBody mw fb el ex st)"
    by (rule Cons.IH)
  then show ?case by (simp add: exampleBody_tags)
qed

lemma generateManifestFile_tags:
  "m_tags (fst (generateManifestFile fb canOpen mw manifest element)) \<subseteq> m_tags mw"
  using foldl_exampleBody_tags
    [of mw fb element
        "(m_tags mw, [StartDocument, StartElement ''instructionals'',
                      Attribute ''module'' (m_project mw), StartElement manifest], [])"]
  by (simp add: generateManifestFile_def Let_def generate_loop_filter)

text \<open>
  C9. \<^verbatim>\<open>m_tags\<close> is empty after \<^verbatim>\<open>writeTagsElement\<close>, whether the element is written
  or skipped, and so after every iteration of the loop over the examples. Started with
  an empty \<^verbatim>\<open>m_tags\<close>, the loop is the same as the loop that empties \<^verbatim>\<open>m_tags\<close> before
  every example: no tag of one example reaches a later one. Generating a manifest file
  adds nothing to \<^verbatim>\<open>m_tags\<close>, so it is empty again before the next file.
\<close>

theorem tags_reset:
  "snd (writeTagsElement (Some w) tgs) = {}
   \<and> fst (exampleBody mw fileBase element example st) = {}
   \<and> generate_loop mw fileBase demos element examples ({}, w, ws) =
       foldl (\<lambda>st ex. exampleBody mw fileBase element ex ({}, snd st)) ({}, w, ws)
         (filter (\<lambda>ex. startsWith (name ex) ''demos'' = demos) examples)
   \<and> m_tags (fst (generateManifestFile fileBase canOpen mw manifest element)) \<subseteq> m_tags mw"
  by (simp add: writeTagsElement_Some exampleBody_tags generate_loop_filter
      foldl_exampleBody_reset generateManifestFile_tags)

lemma generateManifestFile_written:
  assumes t: "m_tags mw = {}"
    and p: "list_ex (\<lambda>ex. (manifest = ''demos'') = startsWith (name ex) ''demos'')
              (exampleNodeMap mw)"
    and o: "canOpen (m_outputDirectory mw @ ''/'' @ manifest @ ''-manifest.xml'')"
  shows "generateManifestFile fb canOpen mw manifest element =
     (mw,
      concat (map (exampleWarnings mw fb element)
                (filter (\<lambda>ex. startsWith (name ex) ''demos'' = (manifest = ''demos''))
                   (exampleNodeMap mw))),
      Some (m_outputDirectory mw @ ''/'' @ manifest @ ''-manifest.xml'',
            manifestDocument mw fb manifest element
              (filter (\<lambda>ex. startsWith (name ex) ''demos'' = (manifest = ''demos''))
                 (exampleNodeMap mw))))"
proof -
  have ne: "exampleNodeMap mw \<noteq> []" using p by auto
  have mw: "mw\<lparr>m_tags := {}\<rparr> = mw" using t by (cases mw) simp
  show ?thesis
    using ne p o
    by (simp add: generateManifestFile_def Let_def t generate_loop_filter foldl_exampleBody
        manifestDocument_def mw)
qed

text \<open>
  C8. When the writer starts with an empty \<^verbatim>\<open>m_tags\<close>, there are both an example whose
  name starts with demos and one whose name does not, and both files can be opened,
  the examples manifest holds the elements of exactly the examples whose name does not
  start with demos and the demos manifest those of exactly the examples whose name
  does, each in the order of the example map; every example is in exactly one of the
  two. The element of an example holds its title as the name attribute, its docUrl,
  its description and its files to open.
\<close>

theorem demos_examples_partition:
  assumes "m_tags mw = {}"
    and "list_ex (\<lambda>ex. startsWith (name ex) ''demos'') (exampleNodeMap mw)"
    and "list_ex (\<lambda>ex. \<not> startsWith (name ex) ''demos'') (exampleNodeMap mw)"
    and "canOpen (m_outputDirectory mw @ ''/examples-manifest.xml'')"
    and "canOpen (m_outputDirectory mw @ ''/demos-manifest.xml'')"
  shows "snd (snd (generateManifestFiles fileBase canOpen mw)) =
           (Some (m_outputDirectory mw @ ''/examples-manifest.xml'',
                  manifestDocument mw fileBase ''examples'' ''example''
                    (filter (\<lambda>ex. \<not> startsWith (name ex) ''demos'') (exampleNodeMap mw))),
            Some (m_outputDirectory mw @ ''/demos-manifest.xml'',
                  manifestDocument mw fileBase ''demos'' ''demo''
                    (filter (\<lambda>ex. startsWith (name ex) ''demos'') (exampleNodeMap mw))))
     \<and> (\<forall>ex \<in> set (exampleNodeMap mw).
           (ex \<in> set (filter (\<lambda>ex. startsWith (name ex) ''demos'') (exampleNodeMap mw)))
           \<noteq> (ex \<in> set (filter (\<lambda>ex. \<not> startsWith (name ex) ''demos'') (exampleNodeMap mw))))
     \<and> (\<forall>ex \<in> set (exampleNodeMap mw). \<forall>element. \<exists>attrs tagsElement.
           exampleElement mw fileBase element ex =
             StartElement element # Attribute ''name'' (title ex)
               # Attribute ''docUrl'' (m_manifestDir mw @ fileBase ex @ ''.html'') # attrs
               @ writeDescription [] ex @ tagsElement
               @ writeFilesToOpen [] (retrieveExampleInstallationPath (m_examplesPath mw) ex)
                   (getFilesToOpen (files ex)
                      (mid (name ex) (lastIndexOf (name ex) CHR ''/'' + 1)))
               @ [EndElement])"
proof (intro conjI)
  have e: "generateManifestFile fileBase canOpen mw ''examples'' ''example'' =
     (mw,
      concat (map (exampleWarnings mw fileBase ''example'')
                (filter (\<lambda>ex. startsWith (name ex) ''demos'' = (''examples'' = ''demos''))
                   (exampleNodeMap mw))),
      Some (m_outputDirectory mw @ ''/'' @ ''examples'' @ ''-manifest.xml'',
            manifestDocument mw fileBase ''examples'' ''example''
              (filter (\<lambda>ex. startsWith (name ex) ''demos'' = (''examples'' = ''demos''))
                 (exampleNodeMap mw))))"
    using assms(1,3,4) by (intro generateManifestFile_written) simp_all
  have d: "generateManifestFile fileBase canOpen mw ''demos'' ''demo'' =
     (mw,
      concat (map (exampleWarnings mw fileBase ''demo'')
                (filter (\<lambda>ex. startsWith (name ex) ''demos'' = (''demos'' = ''demos''))
                   (exampleNodeMap mw))),
      Some (m_outputDirectory mw @ ''/'' @ ''demos'' @ ''-manifest.xml'',
            manifestDocument mw fileBase ''demos'' ''demo''
              (filter (\<lambda>ex. startsWith (name ex) ''demos'' = (''demos'' = ''demos''))
                 (exampleNodeMap mw))))"
    using assms(1,2,5) by (intro generateManifestFile_written) simp_all
  show "snd (snd (generateManifestFiles fileBase canOpen mw)) =
           (Some (m_outputDirectory mw @ ''/examples-manifest.xml'',
                  manifestDocument mw fileBase ''examples'' ''example''
                    (filter (\<lambda>ex. \<not> startsWith (name ex) ''demos'') (exampleNodeMap mw))),
            Some (m_outputDirectory mw @ ''/demos-manifest.xml'',
                  manifestDocument mw fileBase ''demos'' ''demo''
                    (filter (\<lambda>ex. startsWith (name ex) ''demos'') (exampleNodeMap mw))))"
    by (simp add: generateManifestFiles_def Let_def e d)
  show "\<forall>ex \<in> set (exampleNodeMap mw).
           (ex \<in> set (filter (\<lambda>ex. startsWith (name ex) ''demos'') (exampleNodeMap mw)))
           \<noteq> (ex \<in> set (filter (\<lambda>ex. \<not> startsWith (name ex) ''demos'') (exampleNodeMap mw)))"
    by simp
  show "\<forall>ex \<in> set (exampleNodeMap mw). \<forall>element. \<exists>attrs tagsElement.
           exampleElement mw fileBase element ex =
             StartElement element # Attribute ''name'' (title ex)
               # Attribute ''docUrl'' (m_manifestDir mw @ fileBase ex @ ''.html'') # attrs
               @ writeDescription [] ex @ tagsElement
               @ writeFilesToOpen [] (retrieveExampleInstallationPath (m_examplesPath mw) ex)
                   (getFilesToOpen (files ex)
                      (mid (name ex) (lastIndexOf (name ex) CHR ''/'' + 1)))
               @ [EndElement]"
    by (intro ballI allI) (rule exampleElement_content)
qed

lemma sample_example_element:
  "exampleElement sampleWriter name ''example'' exampleNode =
     [StartElement ''example'', Attribute ''name'' ''Calculator'',
      Attribute ''docUrl'' ''qthelp://org.qt/widgets/calculator.html'',
      StartElement ''description'', CDATA ''A calculator'', EndElement,
      StartElement ''tags'', Characters ''calculator,widgets'', EndElement,
      StartElement ''fileToOpen'', Attribute ''mainFile'' ''true'',
      Characters ''main.cpp'', EndElement, EndElement]"
  by code_simp

lemma sample_demo_element:
  "exampleElement sampleWriter name ''demo'' demoNode =
     [StartElement ''demo'', Attribute ''name'' ''Clock'',
      Attribute ''docUrl'' ''qthelp://org.qt/demos/clock.html'',
      Attribute ''projectPath'' ''clock.pro'', StartElement ''description'',
      CDATA ''No description available'', EndElement, StartElement ''tags'',
      Characters ''clock,widgets'', EndElement, StartElement ''fileToOpen'',
      Attribute ''mainFile'' ''true'', Characters ''clock.cpp'', EndElement,
      EndElement]"
  by code_simp

text \<open>
  The two documents written for a writer with the demo demos/clock and the example
  widgets/calculator.
\<close>

theorem demos_examples_partition_witness:
  "m_tags sampleWriter = {}
   \<and> list_ex (\<lambda>ex. startsWith (name ex) ''demos'') (exampleNodeMap sampleWriter)
   \<and> list_ex (\<lambda>ex. \<not> startsWith (name ex) ''demos'') (exampleNodeMap sampleWriter)
   \<and> snd (snd (generateManifestFiles name (\<lambda>path. True) sampleWriter)) =
        (Some (''out/examples-manifest.xml'',
               [StartDocument, StartElement ''instructionals'',
                Attribute ''module'' ''QtWidgets'', StartElement ''examples'',
                StartElement ''example'', Attribute ''name'' ''Calculator'',
                Attribute ''docUrl'' ''qthelp://org.qt/widgets/calculator.html'',
                StartElement ''description'', CDATA ''A calculator'', EndElement,
                StartElement ''tags'', Characters ''calculator,widgets'', EndElement,
                StartElement ''fileToOpen'', Attribute ''mainFile'' ''true'',
                Characters ''main.cpp'', EndElement, EndElement, EndElement,
                EndElement, EndDocument]),
         Some (''out/demos-manifest.xml'',
               [StartDocument, StartElement ''instructionals'',
                Attribute ''module'' ''QtWidgets'', StartElement ''demos'',
                StartElement ''demo'', Attribute ''name'' ''Clock'',
                Attribute ''docUrl'' ''qthelp://org.qt/demos/clock.html'',
                Attribute ''projectPath'' ''clock.pro'', StartElement ''description'',
                CDATA ''No description available'', EndElement, StartElement ''tags'',
                Characters ''clock,widgets'', EndElement, StartElement ''fileToOpen'',
                Attribute ''mainFile'' ''true'', Characters ''clock.cpp'', EndElement,
                EndElement, EndElement, EndElement, EndDocument]))"
proof -
  have f: "m_tags sampleWriter = {}" "exampleNodeMap sampleWriter = [demoNode, exampleNode]"
    "m_outputDirectory sampleWriter = ''out''" "m_project sampleWriter = ''QtWidgets''"
    by (simp_all add: sampleWriter_def)
  have n: "startsWith (name demoNode) ''demos''" "\<not> startsWith (name exampleNode) ''demos''"
    by (simp_all add: demoNode_def exampleNode_def startsWith_def)
  show ?thesis
    using demos_examples_partition [of sampleWriter "\<lambda>path. True" name]
    by (simp add: f n manifestDocument_def sample_example_element sample_demo_element)
qed

lemma cleanTag_id: "at tag 0 \<noteq> CHR ''('' \<Longrightarrow> \<not> endsWith tag '':'' \<Longrightarrow> cleanTag tag = tag"
  by (simp add: cleanTag_def)

text \<open>
  C2, as the code has it. Cleaning strips one leading parenthesis with the last
  character and one trailing colon, once. When no tag of the cleaned set starts with a
  parenthesis or ends with a colon, cleaning the cleaned set again changes nothing.
\<close>

theorem cleanUpTags_idempotent:
  assumes "\<forall>tag \<in> cleanUpTags S. at tag 0 \<noteq> CHR ''('' \<and> \<not> endsWith tag '':''"
  shows "cleanUpTags (cleanUpTags S) = cleanUpTags S"
proof -
  have "cleanTag ` cleanUpTags S = cleanUpTags S"
    using assms by (force simp: cleanTag_id)
  moreover have "Set.filter (\<lambda>tag. \<not> rejectedTag tag) (cleanUpTags S) = cleanUpTags S"
    by (auto simp: cleanUpTags_def)
  ultimately show ?thesis by (simp add: cleanUpTags_def[of "cleanUpTags S"])
qed

lemma cleanUpTags_insert:
  "cleanUpTags (insert tag S) =
     (if rejectedTag (cleanTag tag) then cleanUpTags S
      else insert (cleanTag tag) (cleanUpTags S))"
  by (auto simp: cleanUpTags_def)

lemma cleanUpTags_empty: "cleanUpTags {} = {}"
  by (simp add: cleanUpTags_def)

theorem cleanUpTags_idempotent_witness:
  "cleanUpTags {''(beta)'', ''widgets:'', ''qt''} = {''beta'', ''widgets''}
   \<and> at ''beta'' 0 \<noteq> CHR ''('' \<and> \<not> endsWith ''beta'' '':''
   \<and> at ''widgets'' 0 \<noteq> CHR ''('' \<and> \<not> endsWith ''widgets'' '':''
   \<and> cleanUpTags (cleanUpTags {''(beta)'', ''widgets:'', ''qt''}) = {''beta'', ''widgets''}"
  using cleanUpTags_idempotent [of "{''(beta)'', ''widgets:'', ''qt''}"]
  by (simp add: cleanUpTags_insert cleanUpTags_empty cleanTag_def rejectedTag_def at_def
      endsWith_def startsWith_def chop_def remove_def isDigit_def suffix_def)

text \<open>
  C2, as the specification states it, fails: the tag std:: is cleaned to std:, and
  cleaning again gives std.
\<close>

theorem cleanUpTags_not_idempotent_counterexample:
  "cleanUpTags {''std::''} = {''std:''}
   \<and> cleanUpTags (cleanUpTags {''std::''}) = {''std''}
   \<and> cleanUpTags (cleanUpTags {''std::''}) \<noteq> cleanUpTags {''std::''}"
  by (simp add: cleanUpTags_insert cleanUpTags_empty cleanTag_def rejectedTag_def at_def
      endsWith_def startsWith_def chop_def remove_def isDigit_def suffix_def)

text \<open>
  C3. For the project QtQuick3D the tags from the module name are qt, quick3 and d:
  the class of lowercase letters and digits takes the 3, so the alternative 3D never
  matches behind it. After the cleanup the set is quick3, not quick3d.
\<close>

theorem QtQuick3D_tags:
  "addWordsFromModuleNamesAsTags ''QtQuick3D'' {} = {''qt'', ''quick3'', ''d''}
   \<and> cleanUpTags (addWordsFromModuleNamesAsTags ''QtQuick3D'' {}) = {''quick3''}
   \<and> cleanUpTags (addWordsFromModuleNamesAsTags ''QtQuick3D'' {}) \<noteq> {''quick3d''}"
  by code_simp

text \<open>The other two module names of the comment in the source come out as it says.\<close>

lemma QtQuickControls_tags:
  "cleanUpTags (addWordsFromModuleNamesAsTags ''QtQuickControls'' {}) = {''quick'', ''controls''}"
  by code_simp

lemma QtOpenGL_tags:
  "cleanUpTags (addWordsFromModuleNamesAsTags ''QtOpenGL'' {}) = {''opengl''}"
  by code_simp

end
